theory Spec2Isabelle
  imports Main "HOL-Library.AList"
begin

section \<open>Python values and library functions used by app.py\<close>

text \<open>
  A Python \<open>str\<close> is modelled as a \<open>string\<close>: a list of characters with code points
  below 256. Exceptions are values: every function of the source that can raise returns
  \<open>py_exn + 'a\<close>, with \<open>Inl\<close> for the exception.

  The \<open>ValueError\<close>s that the interpreter raises are kept apart by their payload.
  For \<open>int(s)\<close>: \<open>Invalid_literal s\<close> stands for the message
  \<^verbatim>\<open>invalid literal for int() with base 10: repr(s)\<close> and \<open>Exceeds_digit_limit\<close> for
  \<^verbatim>\<open>Exceeds the limit (4300 digits) for integer string conversion: value has ... digits\<close>.
  For \<open>str(i)\<close> and the formatting of an \<open>int\<close> in an f-string:
  \<open>Exceeds_digit_limit_str\<close> stands for
  \<^verbatim>\<open>Exceeds the limit (4300 digits) for integer string conversion\<close>.
  \<open>Message m\<close> is a \<open>ValueError\<close> raised by the program with the message \<open>m\<close>.
\<close>

datatype value_error =
    Invalid_literal string
  | Exceeds_digit_limit
  | Exceeds_digit_limit_str
  | Range_step_zero
  | Unpack_mismatch
  | Message string

datatype py_exn =
    ValueError value_error
  | RuntimeError string
  | IndexError
  | PdfError string

subsection \<open>\<open>str.strip\<close>, \<open>str.split\<close>\<close>

definition py_isspace :: "char \<Rightarrow> bool" where
  \<comment> \<open>\<open>str.isspace\<close> on one character: the characters \<open>str.strip()\<close> removes\<close>
  "py_isspace c =
     (let n = (of_char c :: nat)
      in (9 \<le> n \<and> n \<le> 13) \<or> (28 \<le> n \<and> n \<le> 32) \<or> n = 133 \<or> n = 160)"

definition py_strip :: "string \<Rightarrow> string" where
  "py_strip s = rev (dropWhile py_isspace (rev (dropWhile py_isspace s)))"

fun split_acc :: "char \<Rightarrow> string \<Rightarrow> string \<Rightarrow> string list" where
  "split_acc sep cur [] = [rev cur]"
| "split_acc sep cur (c # cs) =
     (if c = sep then rev cur # split_acc sep [] cs else split_acc sep (c # cur) cs)"

definition py_split :: "char \<Rightarrow> string \<Rightarrow> string list" where
  \<comment> \<open>\<open>s.split(sep)\<close> for a separator of one character\<close>
  "py_split sep s = split_acc sep [] s"

definition py_split1 :: "char \<Rightarrow> string \<Rightarrow> string list" where
  \<comment> \<open>\<open>s.split(sep, 1)\<close>: at most one split, at the first separator\<close>
  "py_split1 sep s =
     (if sep \<in> set s
      then [takeWhile (\<lambda>c. c \<noteq> sep) s, tl (dropWhile (\<lambda>c. c \<noteq> sep) s)]
      else [s])"

subsection \<open>\<open>int(str)\<close>\<close>

definition int_isspace :: "char \<Rightarrow> bool" where
  \<comment> \<open>the white space \<open>int()\<close> skips around a literal; unlike \<open>str.isspace\<close> it leaves
      out the separators 28 to 31\<close>
  "int_isspace c =
     (let n = (of_char c :: nat)
      in (9 \<le> n \<and> n \<le> 13) \<or> n = 32 \<or> n = 133 \<or> n = 160)"

definition is_digit :: "char \<Rightarrow> bool" where
  "is_digit c = (c \<in> set ''0123456789'')"

definition digit_val :: "char \<Rightarrow> int" where
  "digit_val c = int (of_char c) - 48"

definition is_body_char :: "char \<Rightarrow> bool" where
  "is_body_char c = (is_digit c \<or> c = CHR ''_'')"

fun digits_ok :: "string \<Rightarrow> bool" where
  \<comment> \<open>after a digit: digits, or one underscore followed by a digit\<close>
  "digits_ok [] = True"
| "digits_ok (c # cs) =
     (if c = CHR ''_''
      then (case cs of [] \<Rightarrow> False | d # ds \<Rightarrow> is_digit d \<and> digits_ok ds)
      else is_digit c \<and> digits_ok cs)"

definition body_ok :: "string \<Rightarrow> bool" where
  \<comment> \<open>a digit first, underscores only singly between digits\<close>
  "body_ok b = (case b of [] \<Rightarrow> False | c # cs \<Rightarrow> is_digit c \<and> digits_ok cs)"

definition max_str_digits :: nat where
  \<comment> \<open>\<open>sys.int_info.default_max_str_digits\<close>: the most digits \<open>int(str)\<close> reads and
      \<open>str(int)\<close> writes\<close>
  "max_str_digits = 4300"

definition int_sign :: "string \<Rightarrow> int \<times> string" where
  "int_sign t =
     (case t of
        [] \<Rightarrow> (1, [])
      | c # r \<Rightarrow> if c = CHR ''-'' then (-1, r) else if c = CHR ''+'' then (1, r) else (1, t))"

definition digits_value :: "string \<Rightarrow> int" where
  "digits_value ds = foldl (\<lambda>a c. 10 * a + digit_val c) 0 ds"

definition py_int :: "string \<Rightarrow> py_exn + int" where
  \<comment> \<open>\<open>int(s)\<close>, base 10: white space, an optional sign, the digits, white space\<close>
  "py_int s =
     (let (sign, u) = int_sign (dropWhile int_isspace s);
          body = takeWhile is_body_char u;
          rest = dropWhile is_body_char u;
          ds = filter is_digit body
      in if \<not> body_ok body then Inl (ValueError (Invalid_literal s))
         else if length ds > max_str_digits then Inl (ValueError Exceeds_digit_limit)
         else if dropWhile int_isspace rest \<noteq> [] then Inl (ValueError (Invalid_literal s))
         else Inr (sign * digits_value ds))"

subsection \<open>\<open>range\<close>, \<open>str(int)\<close>, list indexing\<close>

definition range_len :: "int \<Rightarrow> int \<Rightarrow> int \<Rightarrow> nat" where
  \<comment> \<open>the number of elements of \<open>range(start, stop, step)\<close>, \<open>step \<noteq> 0\<close>\<close>
  "range_len start stop step =
     (if step > 0 then (if start < stop then nat ((stop - start - 1) div step + 1) else 0)
      else (if stop < start then nat ((start - stop - 1) div (- step) + 1) else 0))"

definition py_range :: "int \<Rightarrow> int \<Rightarrow> int \<Rightarrow> py_exn + int list" where
  \<comment> \<open>\<open>list(range(start, stop, step))\<close>\<close>
  "py_range start stop step =
     (if step = 0 then Inl (ValueError Range_step_zero)
      else Inr (map (\<lambda>i. start + int i * step) [0 ..< range_len start stop step]))"

function dec_digits :: "int \<Rightarrow> string" where
  \<comment> \<open>the decimal digits of an integer that is not negative\<close>
  "dec_digits n =
     (if n < 10 then [char_of (48 + n)] else dec_digits (n div 10) @ [char_of (48 + n mod 10)])"
  by pat_completeness auto
termination
  by (relation "measure nat") auto

declare dec_digits.simps [simp del]

definition int_digits :: "int \<Rightarrow> string" where
  \<comment> \<open>the decimal notation of an integer, with its sign\<close>
  "int_digits i = (if i < 0 then CHR ''-'' # dec_digits (- i) else dec_digits i)"

definition num_digits :: "int \<Rightarrow> nat" where
  \<comment> \<open>the number of decimal digits, the sign not counted\<close>
  "num_digits i = length (dec_digits \<bar>i\<bar>)"

definition py_str :: "int \<Rightarrow> py_exn + string" where
  \<comment> \<open>\<open>str(i)\<close>, as an f-string formats an \<open>int\<close>: an integer of more than
      \<open>max_str_digits\<close> digits raises\<close>
  "py_str i =
     (if max_str_digits < num_digits i then Inl (ValueError Exceeds_digit_limit_str)
      else Inr (int_digits i))"

definition py_getitem :: "'a list \<Rightarrow> int \<Rightarrow> py_exn + 'a" where
  \<comment> \<open>\<open>xs[i]\<close>: an index below zero counts from the end, one out of range raises\<close>
  "py_getitem xs i =
     (let n = int (length xs)
      in if 0 \<le> i \<and> i < n then Inr (xs ! nat i)
         else if - n \<le> i \<and> i < 0 then Inr (xs ! nat (n + i))
         else Inl IndexError)"

section \<open>\<open>parse_page_spec\<close>\<close>

text \<open>
  The loop over \<open>spec.split(",")\<close>, with the list \<open>pages\<close> it extends as an argument.
  The two names bound by the unpacking of \<open>part.split("-", 1)\<close> are \<open>start_s\<close> and
  \<open>end_s\<close>; an unpacking of another number of values raises \<open>ValueError\<close>.
\<close>

fun parse_loop :: "string list \<Rightarrow> int list \<Rightarrow> py_exn + int list" where
  "parse_loop [] pages = Inr pages"
| "parse_loop (part0 # rest) pages =
     (let part = py_strip part0
      in if part = [] then parse_loop rest pages
         else if CHR ''-'' \<in> set part then
           (case py_split1 CHR ''-'' part of
              [start_s, end_s] \<Rightarrow>
                (case py_int start_s of
                   Inl e \<Rightarrow> Inl e
                 | Inr start \<Rightarrow>
                     (case py_int end_s of
                        Inl e \<Rightarrow> Inl e
                      | Inr end_i \<Rightarrow>
                          (let step = (if start \<le> end_i then 1 else - 1)
                           in case py_range start (end_i + step) step of
                                Inl e \<Rightarrow> Inl e
                              | Inr r \<Rightarrow> parse_loop rest (pages @ r))))
            | _ \<Rightarrow> Inl (ValueError Unpack_mismatch))
         else
           (case py_int part of
              Inl e \<Rightarrow> Inl e
            | Inr n \<Rightarrow> parse_loop rest (pages @ [n])))"

definition parse_page_spec :: "string \<Rightarrow> py_exn + int list" where
  "parse_page_spec spec =
     (if spec = [] then Inr [] else parse_loop (py_split CHR '','' spec) [])"

subsection \<open>The specification's reading of the parser\<close>

text \<open>
  The specification describes the parser in three steps: split on commas, trim each
  token and drop the empty ones; turn each remaining token into the integers it denotes;
  concatenate in order. The definitions below follow that description. They are compared
  with \<open>parse_page_spec\<close> in the theorems.
\<close>

definition tokens :: "string \<Rightarrow> string list" where
  "tokens spec = filter (\<lambda>t. t \<noteq> []) (map py_strip (py_split CHR '','' spec))"

definition endpoints :: "string \<Rightarrow> string \<times> string" where
  \<comment> \<open>the two substrings around the first \<open>-\<close> of a token\<close>
  "endpoints t =
     (takeWhile (\<lambda>c. c \<noteq> CHR ''-'') t, tl (dropWhile (\<lambda>c. c \<noteq> CHR ''-'') t))"

definition int_literal :: "string \<Rightarrow> bool" where
  \<comment> \<open>the strings \<open>int()\<close> accepts\<close>
  "int_literal s =
     (let u = snd (int_sign (dropWhile int_isspace s));
          body = takeWhile is_body_char u
      in body_ok body \<and> length (filter is_digit body) \<le> max_str_digits
         \<and> dropWhile int_isspace (dropWhile is_body_char u) = [])"

definition int_value :: "string \<Rightarrow> int" where
  "int_value s =
     (let (sign, u) = int_sign (dropWhile int_isspace s)
      in sign * digits_value (filter is_digit (takeWhile is_body_char u)))"

definition inclusive_seq :: "int \<Rightarrow> int \<Rightarrow> int list" where
  \<comment> \<open>from \<open>a\<close> to \<open>b\<close> inclusive, stepping by \<open>+1\<close> when \<open>a \<le> b\<close> and by \<open>-1\<close> otherwise\<close>
  "inclusive_seq a b = (if a \<le> b then [a..b] else rev [b..a])"

definition token_ok :: "string \<Rightarrow> bool" where
  \<comment> \<open>a well-formed token: an integer, or two integers around the first \<open>-\<close>\<close>
  "token_ok t =
     (if CHR ''-'' \<in> set t
      then int_literal (fst (endpoints t)) \<and> int_literal (snd (endpoints t))
      else int_literal t)"

definition token_seq :: "string \<Rightarrow> int list" where
  \<comment> \<open>the page numbers a well-formed token denotes\<close>
  "token_seq t =
     (if CHR ''-'' \<in> set t
      then inclusive_seq (int_value (fst (endpoints t))) (int_value (snd (endpoints t)))
      else [int_value t])"

definition token_pages :: "string \<Rightarrow> py_exn + int list" where
  "token_pages t =
     (if CHR ''-'' \<in> set t then
        (case py_int (fst (endpoints t)) of
           Inl e \<Rightarrow> Inl e
         | Inr a \<Rightarrow>
             (case py_int (snd (endpoints t)) of
                Inl e \<Rightarrow> Inl e
              | Inr b \<Rightarrow> Inr (inclusive_seq a b)))
      else (case py_int t of Inl e \<Rightarrow> Inl e | Inr n \<Rightarrow> Inr [n]))"

fun parse_tokens :: "string list \<Rightarrow> py_exn + int list" where
  "parse_tokens [] = Inr []"
| "parse_tokens (t # ts) =
     (case token_pages t of
        Inl e \<Rightarrow> Inl e
      | Inr r \<Rightarrow> (case parse_tokens ts of Inl e \<Rightarrow> Inl e | Inr rs \<Rightarrow> Inr (r @ rs)))"

section \<open>\<open>extract_pages_from_pdf\<close>\<close>

text \<open>
  The PDF library is not part of the program; what the program uses of it is a parameter.
  A \<open>PdfReader\<close> has the attribute \<open>is_encrypted\<close>, the method \<open>decrypt\<close>, which either
  raises (\<open>Inl\<close> of the exception's text) or returns a code, and the page list
  \<open>pages\<close>, whose reading may raise and may depend on the password given to \<open>decrypt\<close>
  before (\<open>None\<close>: \<open>decrypt\<close> was not called). The type \<open>'p\<close> is the library's page.

  A \<open>PdfWriter\<close> holds the pages added to it, in order, and the metadata entries added
  to it. The library's part is \<open>PdfReader_init\<close>, which parses the bytes or raises, and
  \<open>PdfWriter_write\<close>, which serialises a writer.
\<close>

type_synonym bytes = "char list"

record 'p PdfReader =
  is_encrypted :: bool
  decrypt :: "string \<Rightarrow> string + nat"
  pages :: "string option \<Rightarrow> py_exn + 'p list"

record 'p PdfWriter =
  w_pages :: "'p list"
  w_metadata :: "(string \<times> string) list"

record 'p pypdf =
  PdfReader_init :: "bytes \<Rightarrow> py_exn + 'p PdfReader"
  PdfWriter_write :: "'p PdfWriter \<Rightarrow> bytes"

definition PdfWriter_new :: "'p PdfWriter" where
  "PdfWriter_new = \<lparr>w_pages = [], w_metadata = []\<rparr>"

definition add_page :: "'p PdfWriter \<Rightarrow> 'p \<Rightarrow> 'p PdfWriter" where
  "add_page w pg = w\<lparr>w_pages := w_pages w @ [pg]\<rparr>"

definition add_metadata :: "'p PdfWriter \<Rightarrow> (string \<times> string) list \<Rightarrow> 'p PdfWriter" where
  \<comment> \<open>a dictionary update, entry by entry\<close>
  "add_metadata w kvs = w\<lparr>w_metadata := fold (\<lambda>(k, v). AList.update k v) kvs (w_metadata w)\<rparr>"

definition try_decrypt :: "'p PdfReader \<Rightarrow> py_exn + string option" where
  \<comment> \<open>lines 42 to 48: the result is the password the reader was given, if any\<close>
  "try_decrypt reader =
     (if is_encrypted reader then
        (case decrypt reader '''' of
           Inl e \<Rightarrow>
             Inl (RuntimeError
                    (''PDF is encrypted and cannot be opened without a password: '' @ e))
         | Inr _ \<Rightarrow> Inr (Some ''''))
      else Inr None)"

definition out_of_range_message :: "int \<Rightarrow> int \<Rightarrow> py_exn + string" where
  \<comment> \<open>the f-string of line 55: the two integers are formatted from left to right\<close>
  "out_of_range_message p total_pages =
     (case py_str p of
        Inl e \<Rightarrow> Inl e
      | Inr sp \<Rightarrow>
          (case py_str total_pages of
             Inl e \<Rightarrow> Inl e
           | Inr st \<Rightarrow> Inr (''Page '' @ sp @ '' is out of range (1..'' @ st @ '').'')))"

definition out_of_range_error :: "int \<Rightarrow> int \<Rightarrow> py_exn" where
  \<comment> \<open>what line 55 raises: the \<open>ValueError\<close> with the message, or what building the
      message raised\<close>
  "out_of_range_error p total_pages =
     (case out_of_range_message p total_pages of
        Inl e \<Rightarrow> e
      | Inr m \<Rightarrow> ValueError (Message m))"

fun validate_loop :: "int list \<Rightarrow> int \<Rightarrow> py_exn + unit" where
  \<comment> \<open>lines 53 to 55\<close>
  "validate_loop [] total_pages = Inr ()"
| "validate_loop (p # ps) total_pages =
     (if p < 1 \<or> p > total_pages
      then Inl (out_of_range_error p total_pages)
      else validate_loop ps total_pages)"

fun add_loop :: "'p list \<Rightarrow> int list \<Rightarrow> 'p PdfWriter \<Rightarrow> py_exn option \<times> 'p PdfWriter" where
  \<comment> \<open>lines 58 and 59, with the writer they change; \<open>Some e\<close>: the loop raised \<open>e\<close>\<close>
  "add_loop pgs [] writer = (None, writer)"
| "add_loop pgs (p # ps) writer =
     (case py_getitem pgs (p - 1) of
        Inl e \<Rightarrow> (Some e, writer)
      | Inr pg \<Rightarrow> add_loop pgs ps (add_page writer pg))"

definition extract_metadata :: "(string \<times> string) list" where
  "extract_metadata = [(''/Title'', ''Extracted Pages''), (''/Producer'', ''pypdf'')]"

text \<open>
  The run of the function returns what it returns or raises, and the writer as it is at
  that moment: \<open>None\<close> as long as line 57 has not created it.
\<close>

definition extract_pages_run ::
  "'p pypdf \<Rightarrow> bytes \<Rightarrow> int list \<Rightarrow> (py_exn + bytes) \<times> 'p PdfWriter option" where
  "extract_pages_run lib pdf_bytes pages_1based =
     (case PdfReader_init lib pdf_bytes of
        Inl e \<Rightarrow> (Inl e, None)
      | Inr reader \<Rightarrow>
          (case try_decrypt reader of
             Inl e \<Rightarrow> (Inl e, None)
           | Inr pw \<Rightarrow>
               (case pages reader pw of
                  Inl e \<Rightarrow> (Inl e, None)
                | Inr pgs \<Rightarrow>
                    (let total_pages = int (length pgs)
                     in case validate_loop pages_1based total_pages of
                          Inl e \<Rightarrow> (Inl e, None)
                        | Inr _ \<Rightarrow>
                            (case add_loop pgs pages_1based PdfWriter_new of
                               (Some e, writer) \<Rightarrow> (Inl e, Some writer)
                             | (None, writer) \<Rightarrow>
                                 (let writer' = add_metadata writer extract_metadata
                                  in (Inr (PdfWriter_write lib writer'), Some writer')))))))"

definition extract_pages_from_pdf :: "'p pypdf \<Rightarrow> bytes \<Rightarrow> int list \<Rightarrow> py_exn + bytes" where
  "extract_pages_from_pdf lib pdf_bytes pages_1based =
     fst (extract_pages_run lib pdf_bytes pages_1based)"

definition open_pages :: "'p pypdf \<Rightarrow> bytes \<Rightarrow> py_exn + 'p list" where
  \<comment> \<open>lines 39 to 50: the page list of the source, when it can be read\<close>
  "open_pages lib pdf_bytes =
     (case PdfReader_init lib pdf_bytes of
        Inl e \<Rightarrow> Inl e
      | Inr reader \<Rightarrow>
          (case try_decrypt reader of Inl e \<Rightarrow> Inl e | Inr pw \<Rightarrow> pages reader pw))"

subsection \<open>A small instance of the library\<close>

text \<open>
  An instance of the library, to run the model on: the bytes of a document are its pages,
  one byte a page; no bytes at all do not parse. A document whose first byte is \<open>#\<close> is
  encrypted in a way the library does not support: its \<open>decrypt\<close> raises. A document whose
  first byte is \<open>!\<close> is encrypted with a password that is not empty: as in pypdf, its
  \<open>decrypt\<close> returns 0 (not decrypted) and raises nothing, and reading its pages raises.
  The serialisation of a writer is its pages.
\<close>

definition toy_reader :: "bytes \<Rightarrow> char PdfReader" where
  "toy_reader b =
     \<lparr>is_encrypted = (take 1 b = ''#'' \<or> take 1 b = ''!''),
      decrypt = (\<lambda>pw. if take 1 b = ''!'' then Inr 0 else Inl ''unsupported encryption''),
      pages =
        (\<lambda>pw. if take 1 b = ''!'' then Inl (PdfError ''File has not been decrypted'')
              else Inr b)\<rparr>"

definition toy_pypdf :: "char pypdf" where
  "toy_pypdf =
     \<lparr>PdfReader_init =
        (\<lambda>b. if b = [] then Inl (PdfError ''Cannot read an empty file'') else Inr (toy_reader b)),
      PdfWriter_write = w_pages\<rparr>"

section \<open>Properties of \<open>parse_page_spec\<close>\<close>

subsection \<open>Facts about the library functions\<close>

lemma py_int_cases:
  "py_int s =
     (if int_literal s then Inr (int_value s)
      else if body_ok (takeWhile is_body_char (snd (int_sign (dropWhile int_isspace s))))
            \<and> max_str_digits
                < length (filter is_digit
                    (takeWhile is_body_char (snd (int_sign (dropWhile int_isspace s)))))
           then Inl (ValueError Exceeds_digit_limit)
           else Inl (ValueError (Invalid_literal s)))"
  by (auto simp: py_int_def int_literal_def int_value_def Let_def split: prod.splits)

lemma py_int_literal: "int_literal s \<Longrightarrow> py_int s = Inr (int_value s)"
  by (simp add: py_int_cases)

lemma py_int_not_literal: "\<not> int_literal s \<Longrightarrow> \<exists>ve. py_int s = Inl (ValueError ve)"
  by (simp add: py_int_cases)

lemma py_int_Inr_iff: "py_int s = Inr n \<longleftrightarrow> int_literal s \<and> n = int_value s"
  by (auto simp: py_int_cases)

lemma py_int_empty: "py_int [] = Inl (ValueError (Invalid_literal []))"
  by (simp add: py_int_def int_sign_def body_ok_def)

lemma range_len_up: "a \<le> b \<Longrightarrow> range_len a (b + 1) 1 = nat (b - a + 1)"
  by (simp add: range_len_def)

lemma range_len_down: "b < a \<Longrightarrow> range_len a (b - 1) (- 1) = nat (a - b + 1)"
  by (simp add: range_len_def)

lemma py_range_up: "a \<le> b \<Longrightarrow> py_range a (b + 1) 1 = Inr [a..b]"
  by (auto simp: py_range_def range_len_up intro!: nth_equalityI)

lemma py_range_down: "b < a \<Longrightarrow> py_range a (b - 1) (- 1) = Inr (rev [b..a])"
  by (auto simp: py_range_def range_len_down rev_nth intro!: nth_equalityI)

lemma py_range_step:
  "py_range a (b + (if a \<le> b then 1 else - 1)) (if a \<le> b then 1 else - 1)
     = Inr (inclusive_seq a b)"
  using py_range_up [of a b] py_range_down [of b a] by (simp add: inclusive_seq_def)

lemma py_split1_dash:
  "CHR ''-'' \<in> set t \<Longrightarrow> py_split1 CHR ''-'' t = [fst (endpoints t), snd (endpoints t)]"
  by (simp add: py_split1_def endpoints_def)

lemma split_acc_no_sep: "sep \<notin> set s \<Longrightarrow> split_acc sep cur s = [rev cur @ s]"
  by (induction s arbitrary: cur) auto

lemma py_split_no_sep: "sep \<notin> set s \<Longrightarrow> py_split sep s = [s]"
  by (simp add: py_split_def split_acc_no_sep)

subsection \<open>The loop and the tokens\<close>

lemma parse_loop_step:
  "parse_loop (raw # rest) acc =
     (if py_strip raw = [] then parse_loop rest acc
      else (case token_pages (py_strip raw) of
              Inl e \<Rightarrow> Inl e
            | Inr r \<Rightarrow> parse_loop rest (acc @ r)))"
  by (simp add: token_pages_def py_split1_dash py_range_step Let_def split: sum.splits)

lemma parse_loop_tokens:
  "parse_loop raws acc =
     (case parse_tokens (filter (\<lambda>t. t \<noteq> []) (map py_strip raws)) of
        Inl e \<Rightarrow> Inl e
      | Inr rs \<Rightarrow> Inr (acc @ rs))"
proof (induction raws arbitrary: acc)
  case Nil
  show ?case by simp
next
  case (Cons raw raws)
  show ?case
    unfolding parse_loop_step
    by (simp add: Cons.IH split: sum.splits)
qed

lemma tokens_empty: "tokens [] = []"
  by (simp add: tokens_def py_split_def py_strip_def)

lemma parse_page_spec_tokens: "parse_page_spec spec = parse_tokens (tokens spec)"
proof (cases "spec = []")
  case True
  then show ?thesis by (simp add: parse_page_spec_def tokens_empty)
next
  case False
  then show ?thesis
    by (simp add: parse_page_spec_def parse_loop_tokens tokens_def split: sum.splits)
qed

lemma token_pages_ok: "token_ok t \<Longrightarrow> token_pages t = Inr (token_seq t)"
  by (simp add: token_ok_def token_pages_def token_seq_def py_int_literal)

lemma token_pages_bad: "\<not> token_ok t \<Longrightarrow> \<exists>ve. token_pages t = Inl (ValueError ve)"
  by (auto simp: token_ok_def token_pages_def py_int_cases split: if_splits)

lemma parse_tokens_ok:
  "\<forall>t \<in> set ts. token_ok t \<Longrightarrow> parse_tokens ts = Inr (concat (map token_seq ts))"
  by (induction ts) (simp_all add: token_pages_ok)

lemma parse_tokens_bad:
  "\<exists>t \<in> set ts. \<not> token_ok t \<Longrightarrow> \<exists>ve. parse_tokens ts = Inl (ValueError ve)"
proof (induction ts)
  case Nil
  then show ?case by simp
next
  case (Cons t ts)
  show ?case
  proof (cases "token_ok t")
    case True
    with Cons.prems have "\<exists>u \<in> set ts. \<not> token_ok u" by auto
    then obtain ve where "parse_tokens ts = Inl (ValueError ve)"
      using Cons.IH by blast
    with True show ?thesis by (simp add: token_pages_ok)
  next
    case False
    then obtain ve where "token_pages t = Inl (ValueError ve)"
      using token_pages_bad by blast
    then show ?thesis by simp
  qed
qed

lemma leading_dash_not_ok:
  assumes "t \<noteq> []" and "hd t = CHR ''-''"
  shows "\<not> token_ok t"
proof -
  from assms obtain r where t: "t = CHR ''-'' # r" by (cases t) auto
  then have "fst (endpoints t) = []" by (simp add: endpoints_def)
  moreover have "\<not> int_literal []"
    using py_int_empty py_int_literal [of "[]"] by auto
  ultimately show ?thesis using t by (simp add: token_ok_def)
qed

subsection \<open>The claims about the parser\<close>

lemma ex_1_3: "parse_page_spec ''1,,3'' = Inr [1, 3]"
  by code_simp

lemma ex_spaces: "parse_page_spec '' 1 , ,3, '' = Inr [1, 3]"
  by code_simp

text \<open>
  Claim C8. For every input string, \<open>parse_page_spec\<close> is the parse of the tokens obtained by
  splitting on commas, trimming each piece and discarding the pieces that are empty after
  trimming: stray or trailing commas and extra spaces contribute nothing. The empty string
  yields the empty list, and \<open>1,,3\<close> yields \<open>[1, 3]\<close>.
\<close>

theorem parse_page_spec_splits_trims_discards:
  "parse_page_spec spec
     = parse_tokens (filter (\<lambda>t. t \<noteq> []) (map py_strip (py_split CHR '','' spec)))
   \<and> parse_page_spec '''' = Inr []
   \<and> parse_page_spec ''1,,3'' = Inr [1, 3]
   \<and> parse_page_spec '' 1 , ,3, '' = Inr [1, 3]"
proof -
  have "parse_page_spec spec
          = parse_tokens (filter (\<lambda>t. t \<noteq> []) (map py_strip (py_split CHR '','' spec)))"
    using parse_page_spec_tokens [of spec] by (simp add: tokens_def)
  moreover have "parse_page_spec '''' = Inr []"
    by (simp add: parse_page_spec_def)
  ultimately show ?thesis
    using ex_1_3 ex_spaces by blast
qed

lemma ex_2_2_2: "parse_page_spec ''2,2,2'' = Inr [2, 2, 2]"
  by code_simp

text \<open>
  Claim C7. For every spec whose tokens are all well formed, \<open>parse_page_spec\<close> returns the
  concatenation, in token order, of the sequences the tokens denote: nothing is sorted and
  nothing is removed. \<open>2,2,2\<close> yields \<open>[2, 2, 2]\<close>.
\<close>

theorem parse_page_spec_keeps_order_and_duplicates:
  assumes "\<forall>t \<in> set (tokens spec). token_ok t"
  shows "parse_page_spec spec = Inr (concat (map token_seq (tokens spec)))
         \<and> parse_page_spec ''2,2,2'' = Inr [2, 2, 2]"
  using assms ex_2_2_2 by (simp add: parse_page_spec_tokens parse_tokens_ok)

theorem parse_page_spec_keeps_order_and_duplicates_witness:
  "list_all token_ok (tokens ''3,1-2,3'')
   \<and> parse_page_spec ''3,1-2,3'' = Inr [3, 1, 2, 3]"
proof -
  have l: "list_all token_ok (tokens ''3,1-2,3'')"
    by code_simp
  then have h: "\<forall>t \<in> set (tokens ''3,1-2,3''). token_ok t"
    by (simp add: list_all_iff)
  have c: "concat (map token_seq (tokens ''3,1-2,3'')) = [3, 1, 2, 3]"
    by code_simp
  from parse_page_spec_keeps_order_and_duplicates [OF h]
  have "parse_page_spec ''3,1-2,3'' = Inr [3, 1, 2, 3]"
    by (simp only: c)
  with l show ?thesis by blast
qed

lemma ex_dash: "parse_page_spec ''-'' = Inl (ValueError (Invalid_literal ''''))"
  by code_simp

lemma ex_3_dash: "parse_page_spec ''3-'' = Inl (ValueError (Invalid_literal ''''))"
  by code_simp

lemma ex_a_3: "parse_page_spec ''a-3'' = Inl (ValueError (Invalid_literal ''a''))"
  by code_simp

lemma ex_x: "parse_page_spec ''x'' = Inl (ValueError (Invalid_literal ''x''))"
  by code_simp

text \<open>
  Claim C5. For every input with a malformed token (a range with an endpoint that is missing
  or is not an integer, or a single token that is not an integer), \<open>parse_page_spec\<close> raises
  \<open>ValueError\<close>: it neither skips the token nor returns a partial list. The inputs \<open>-\<close>,
  \<open>3-\<close>, \<open>a-3\<close> and \<open>x\<close> all fail.
\<close>

theorem parse_page_spec_malformed_token_fails:
  assumes "\<exists>t \<in> set (tokens spec). \<not> token_ok t"
  shows "(\<exists>ve. parse_page_spec spec = Inl (ValueError ve))
         \<and> parse_page_spec ''-'' = Inl (ValueError (Invalid_literal ''''))
         \<and> parse_page_spec ''3-'' = Inl (ValueError (Invalid_literal ''''))
         \<and> parse_page_spec ''a-3'' = Inl (ValueError (Invalid_literal ''a''))
         \<and> parse_page_spec ''x'' = Inl (ValueError (Invalid_literal ''x''))"
  using parse_tokens_bad [OF assms] ex_dash ex_3_dash ex_a_3 ex_x
  by (simp add: parse_page_spec_tokens)

theorem parse_page_spec_malformed_token_fails_witness:
  "(\<exists>t \<in> set (tokens ''1,2-,5''). \<not> token_ok t)
   \<and> (\<exists>ve. parse_page_spec ''1,2-,5'' = Inl (ValueError ve))"
proof -
  have h: "\<exists>t \<in> set (tokens ''1,2-,5''). \<not> token_ok t"
    by code_simp
  from parse_page_spec_malformed_token_fails [OF h] h show ?thesis
    by simp
qed

lemma ex_7_4: "parse_page_spec ''7-4'' = Inr [7, 6, 5, 4]"
  by code_simp

lemma ex_1_3_5_10: "parse_page_spec ''1,3-5,10'' = Inr [1, 3, 4, 5, 10]"
  by code_simp

lemma range_token_pages:
  assumes "py_split1 CHR ''-'' t = [start_s, end_s]"
    and "py_int start_s = Inr a" and "py_int end_s = Inr b"
  shows "CHR ''-'' \<in> set t" and "token_pages t = Inr (inclusive_seq a b)"
proof -
  show d: "CHR ''-'' \<in> set t"
    using assms(1) by (auto simp: py_split1_def split: if_splits)
  from assms(1) have "fst (endpoints t) = start_s" "snd (endpoints t) = end_s"
    using py_split1_dash [OF d] by auto
  with d assms(2,3) show "token_pages t = Inr (inclusive_seq a b)"
    by (simp add: token_pages_def)
qed

text \<open>
  Claim C4. For every token whose two substrings around the first \<open>-\<close> parse as the integers
  \<open>a\<close> and \<open>b\<close>, the loop appends to the pages so far the inclusive sequence from \<open>a\<close> to
  \<open>b\<close>, ascending when \<open>a \<le> b\<close> and descending otherwise, and goes on with the rest; a spec
  that is one such token yields that sequence. \<open>7-4\<close> yields \<open>[7, 6, 5, 4]\<close> and
  \<open>1,3-5,10\<close> yields \<open>[1, 3, 4, 5, 10]\<close>.
\<close>

theorem parse_page_spec_range_token:
  assumes "py_split1 CHR ''-'' (py_strip raw) = [start_s, end_s]"
    and "py_int start_s = Inr a" and "py_int end_s = Inr b"
  shows "parse_loop (raw # rest) acc
           = parse_loop rest (acc @ (if a \<le> b then [a..b] else rev [b..a]))
         \<and> (CHR '','' \<notin> set raw \<longrightarrow>
              parse_page_spec raw = Inr (if a \<le> b then [a..b] else rev [b..a]))
         \<and> parse_page_spec ''7-4'' = Inr [7, 6, 5, 4]
         \<and> parse_page_spec ''1,3-5,10'' = Inr [1, 3, 4, 5, 10]"
proof -
  note tp = range_token_pages [OF assms]
  from tp(1) have ne: "py_strip raw \<noteq> []" by auto
  then have raw: "raw \<noteq> []" by (auto simp: py_strip_def)
  have step: "parse_loop (raw # rest) acc = parse_loop rest (acc @ inclusive_seq a b)"
    for rest acc
    using ne tp(2) by (simp add: parse_loop_step del: parse_loop.simps)
  have "parse_page_spec raw = Inr (inclusive_seq a b)" if "CHR '','' \<notin> set raw"
    using that raw step [of "[]" "[]"] by (simp add: parse_page_spec_def py_split_no_sep)
  with step [of rest acc] ex_7_4 ex_1_3_5_10 show ?thesis
    by (simp add: inclusive_seq_def)
qed

theorem parse_page_spec_range_token_witness:
  "py_split1 CHR ''-'' (py_strip '' 7 - 4 '') = [''7 '', '' 4'']
   \<and> py_int ''7 '' = Inr 7 \<and> py_int '' 4'' = Inr 4
   \<and> parse_loop ['' 7 - 4 '', ''9''] [1] = Inr [1, 7, 6, 5, 4, 9]
   \<and> CHR '','' \<notin> set '' 7 - 4 ''
   \<and> parse_page_spec '' 7 - 4 '' = Inr [7, 6, 5, 4]"
proof -
  have h1: "py_split1 CHR ''-'' (py_strip '' 7 - 4 '') = [''7 '', '' 4'']" by code_simp
  have h2: "py_int ''7 '' = Inr 7" by code_simp
  have h3: "py_int '' 4'' = Inr 4" by code_simp
  have h4: "parse_loop [''9''] ([1] @ (if (7::int) \<le> 4 then [7..4] else rev [4..7]))
              = Inr [1, 7, 6, 5, 4, 9]" by code_simp
  have h5: "(if (7::int) \<le> 4 then [7..4] else rev [4..7]) = [7, 6, 5, 4]" by code_simp
  have h6: "CHR '','' \<notin> set '' 7 - 4 ''" by simp
  note inst = parse_page_spec_range_token [OF h1 h2 h3, of "[''9'']" "[1]"]
  from inst have "parse_loop ['' 7 - 4 '', ''9''] [1]
                   = parse_loop [''9''] ([1] @ (if (7::int) \<le> 4 then [7..4] else rev [4..7]))"
    by (rule conjunct1)
  then have c1: "parse_loop ['' 7 - 4 '', ''9''] [1] = Inr [1, 7, 6, 5, 4, 9]"
    by (simp only: h4)
  from inst h6 have "parse_page_spec '' 7 - 4 ''
                      = Inr (if (7::int) \<le> 4 then [7..4] else rev [4..7])"
    by blast
  then have c2: "parse_page_spec '' 7 - 4 '' = Inr [7, 6, 5, 4]"
    by (simp only: h5)
  from h1 h2 h3 c1 h6 c2 show ?thesis
    by blast
qed

text \<open>
  Claim C3 says that a negative integer literal such as \<open>-3\<close> is parsed as an integer and
  appended. On the code it is not: the token contains \<open>-\<close>, so it is split into the empty
  string and \<open>3\<close>, and \<open>int\<close> of the empty string raises.
\<close>

theorem negative_literal_counterexample:
  "parse_page_spec ''-3'' = Inl (ValueError (Invalid_literal ''''))
   \<and> parse_page_spec ''-3'' \<noteq> Inr [- 3]"
proof -
  have "parse_page_spec ''-3'' = Inl (ValueError (Invalid_literal ''''))"
    by code_simp
  then show ?thesis by simp
qed

lemma ex_3_m1: "parse_page_spec ''3--1'' = Inr [3, 2, 1, 0, - 1]"
  by code_simp

lemma ex_0_99: "parse_page_spec ''0,99'' = Inr [0, 99]"
  by code_simp

text \<open>
  Claim C3, amended. For every spec with a token that begins with \<open>-\<close> (a negative integer
  literal among them), \<open>parse_page_spec\<close> raises \<open>ValueError\<close>. A negative value is accepted
  only as the end of a range: \<open>3--1\<close> yields \<open>[3, 2, 1, 0, -1]\<close>. The parser checks no
  bounds: \<open>0,99\<close> yields \<open>[0, 99]\<close>.
\<close>

theorem parse_page_spec_leading_dash_fails:
  assumes "t \<in> set (tokens spec)" and "hd t = CHR ''-''"
  shows "(\<exists>ve. parse_page_spec spec = Inl (ValueError ve))
         \<and> parse_page_spec ''3--1'' = Inr [3, 2, 1, 0, - 1]
         \<and> parse_page_spec ''0,99'' = Inr [0, 99]"
proof -
  from assms(1) have "t \<noteq> []" by (auto simp: tokens_def)
  then have "\<not> token_ok t" using assms(2) by (rule leading_dash_not_ok)
  with assms(1) have "\<exists>u \<in> set (tokens spec). \<not> token_ok u" by blast
  then have "\<exists>ve. parse_page_spec spec = Inl (ValueError ve)"
    using parse_tokens_bad by (simp add: parse_page_spec_tokens)
  with ex_3_m1 ex_0_99 show ?thesis by blast
qed

theorem parse_page_spec_leading_dash_fails_witness:
  "''-3'' \<in> set (tokens ''1, -3'') \<and> hd ''-3'' = CHR ''-''
   \<and> (\<exists>ve. parse_page_spec ''1, -3'' = Inl (ValueError ve))"
proof -
  have h1: "''-3'' \<in> set (tokens ''1, -3'')" by code_simp
  have h2: "hd ''-3'' = CHR ''-''" by simp
  from parse_page_spec_leading_dash_fails [OF h1 h2] h1 h2 show ?thesis
    by simp
qed

section \<open>Properties of \<open>extract_pages_from_pdf\<close>\<close>

lemma validate_loop_find:
  "validate_loop ps n =
     (case find (\<lambda>p. p < 1 \<or> n < p) ps of
        None \<Rightarrow> Inr ()
      | Some p \<Rightarrow> Inl (out_of_range_error p n))"
  by (induction ps) auto

lemma out_of_range_error_cases:
  "out_of_range_error p n =
     ValueError
       (if num_digits p \<le> max_str_digits \<and> num_digits n \<le> max_str_digits
        then Message (''Page '' @ int_digits p @ '' is out of range (1..'' @ int_digits n @ '').'')
        else Exceeds_digit_limit_str)"
  by (simp add: out_of_range_error_def out_of_range_message_def py_str_def)

lemma dec_digits_not_empty: "dec_digits n \<noteq> []"
  by (subst dec_digits.simps) simp

lemma dec_digits_long: "10 ^ k \<le> n \<Longrightarrow> k < length (dec_digits n)"
proof (induction k arbitrary: n)
  case 0
  show ?case using dec_digits_not_empty [of n] by simp
next
  case (Suc k)
  from Suc.prems have "10 * 10 ^ k \<le> n" by simp
  moreover have "(1::int) \<le> 10 ^ k" by simp
  ultimately have big: "10 \<le> n" and "10 ^ k \<le> n div 10" by linarith+
  then have "k < length (dec_digits (n div 10))" using Suc.IH by blast
  moreover from big have "dec_digits n = dec_digits (n div 10) @ [char_of (48 + n mod 10)]"
    by (subst dec_digits.simps) simp
  ultimately show ?case by simp
qed

lemma dec_digits_short: "n < 10 ^ k \<Longrightarrow> 0 < k \<Longrightarrow> length (dec_digits n) \<le> k"
proof (induction k arbitrary: n)
  case 0
  then show ?case by simp
next
  case (Suc k)
  show ?case
  proof (cases "n < 10")
    case True
    then have "dec_digits n = [char_of (48 + n)]"
      by (subst dec_digits.simps) simp
    then show ?thesis by simp
  next
    case False
    then have step: "dec_digits n = dec_digits (n div 10) @ [char_of (48 + n mod 10)]"
      by (subst dec_digits.simps) simp
    from Suc.prems(1) have lt: "n < 10 * 10 ^ k" by simp
    with False have "0 < k" by (cases k) auto
    moreover from lt have "n div 10 < 10 ^ k" by linarith
    ultimately have "length (dec_digits (n div 10)) \<le> k" using Suc.IH by blast
    with step show ?thesis by simp
  qed
qed

lemma num_digits_le_iff:
  assumes "0 < k"
  shows "num_digits p \<le> k \<longleftrightarrow> \<bar>p\<bar> < 10 ^ k"
proof
  assume le: "num_digits p \<le> k"
  show "\<bar>p\<bar> < 10 ^ k"
  proof (rule ccontr)
    assume "\<not> \<bar>p\<bar> < 10 ^ k"
    then have "10 ^ k \<le> \<bar>p\<bar>" by simp
    from dec_digits_long [OF this] have "k < num_digits p"
      by (simp add: num_digits_def)
    with le show False by simp
  qed
next
  assume "\<bar>p\<bar> < 10 ^ k"
  from dec_digits_short [OF this assms] show "num_digits p \<le> k"
    by (simp add: num_digits_def)
qed

lemma py_getitem_in_range:
  "1 \<le> p \<Longrightarrow> p \<le> int (length pgs) \<Longrightarrow> py_getitem pgs (p - 1) = Inr (pgs ! nat (p - 1))"
  by (simp add: py_getitem_def)

lemma add_loop_in_range:
  "\<forall>p \<in> set ps. 1 \<le> p \<and> p \<le> int (length pgs) \<Longrightarrow>
   add_loop pgs ps w = (None, w\<lparr>w_pages := w_pages w @ map (\<lambda>p. pgs ! nat (p - 1)) ps\<rparr>)"
  by (induction ps arbitrary: w) (simp_all add: py_getitem_in_range add_page_def)

lemma add_metadata_new:
  "add_metadata \<lparr>w_pages = xs, w_metadata = []\<rparr> extract_metadata
     = \<lparr>w_pages = xs, w_metadata = extract_metadata\<rparr>"
  by (simp add: add_metadata_def extract_metadata_def)

lemma find_None_in_range:
  "find (\<lambda>p. p < 1 \<or> n < p) ps = None \<longleftrightarrow> (\<forall>p \<in> set ps. 1 \<le> p \<and> p \<le> (n::int))"
  by (auto simp: find_None_iff)

lemma extract_pages_run_opened:
  assumes "open_pages lib pdf_bytes = Inr pgs"
  shows "extract_pages_run lib pdf_bytes ps =
           (case validate_loop ps (int (length pgs)) of
              Inl e \<Rightarrow> (Inl e, None)
            | Inr _ \<Rightarrow>
                (case add_loop pgs ps PdfWriter_new of
                   (Some e, writer) \<Rightarrow> (Inl e, Some writer)
                 | (None, writer) \<Rightarrow>
                     (Inr (PdfWriter_write lib (add_metadata writer extract_metadata)),
                      Some (add_metadata writer extract_metadata))))"
  using assms
  by (auto simp: open_pages_def extract_pages_run_def Let_def
           split: sum.splits prod.splits option.splits)

lemma extract_pages_run_in_range:
  assumes "open_pages lib pdf_bytes = Inr pgs"
    and "\<forall>p \<in> set ps. 1 \<le> p \<and> p \<le> int (length pgs)"
  shows "extract_pages_run lib pdf_bytes ps =
           (Inr (PdfWriter_write lib
                  \<lparr>w_pages = map (\<lambda>p. pgs ! nat (p - 1)) ps, w_metadata = extract_metadata\<rparr>),
            Some \<lparr>w_pages = map (\<lambda>p. pgs ! nat (p - 1)) ps, w_metadata = extract_metadata\<rparr>)"
proof -
  from assms(2) have "validate_loop ps (int (length pgs)) = Inr ()"
    by (simp add: validate_loop_find find_None_in_range [THEN iffD2])
  moreover have "add_loop pgs ps PdfWriter_new
                   = (None, \<lparr>w_pages = map (\<lambda>p. pgs ! nat (p - 1)) ps, w_metadata = []\<rparr>)"
    using add_loop_in_range [OF assms(2), of PdfWriter_new] by (simp add: PdfWriter_new_def)
  ultimately show ?thesis
    by (simp add: extract_pages_run_opened [OF assms(1)] add_metadata_new)
qed

lemma extract_pages_run_out_of_range:
  assumes "open_pages lib pdf_bytes = Inr pgs"
    and "find (\<lambda>p. p < 1 \<or> int (length pgs) < p) ps = Some p"
  shows "extract_pages_run lib pdf_bytes ps =
           (Inl (out_of_range_error p (int (length pgs))), None)"
  using assms(2) by (simp add: extract_pages_run_opened [OF assms(1)] validate_loop_find)

lemma extract_pages_run_huge_page:
  assumes "10 ^ 4300 \<le> p"
  shows "extract_pages_run toy_pypdf ''ABC'' [p]
           = (Inl (ValueError Exceeds_digit_limit_str), None)"
proof -
  have "(1::int) \<le> 10 ^ 4300" by (rule one_le_power) simp
  then have pos: "1 \<le> p" using assms by (rule order_trans)
  from dec_digits_long [OF assms] have long: "4300 < length (dec_digits p)" .
  have op: "open_pages toy_pypdf ''ABC'' = Inr ''ABC''"
    by (simp add: open_pages_def toy_pypdf_def toy_reader_def try_decrypt_def)
  have "(10::int) ^ 1 \<le> 10 ^ 4300" by (rule power_increasing) simp_all
  then have "(10::int) \<le> 10 ^ 4300" by (simp only: power_one_right)
  then have ten: "10 \<le> p" using assms by (rule order_trans)
  then have f: "find (\<lambda>q. q < 1 \<or> int (length ''ABC'') < q) [p] = Some p" by simp
  from pos long
  have "out_of_range_error p (int (length ''ABC'')) = ValueError Exceeds_digit_limit_str"
    by (simp add: out_of_range_error_cases num_digits_def max_str_digits_def)
  with extract_pages_run_out_of_range [OF op f] show ?thesis by simp
qed

subsection \<open>The claims about the extractor\<close>

lemma toy_open_pages: "open_pages toy_pypdf ''ABC'' = Inr ''ABC''"
  by (simp add: open_pages_def toy_pypdf_def toy_reader_def try_decrypt_def)

text \<open>
  Claim C1. For every source whose page list \<open>pgs\<close> can be read and every page list whose
  entries all lie between 1 and the number of pages, \<open>extract_pages_from_pdf\<close> returns the
  serialisation of a writer whose pages are, for each \<open>p\<close> of the list in order, the page of
  the source at the 0-based index \<open>p - 1\<close>. For the pages \<open>[A, B, C]\<close> the list \<open>[3, 1]\<close>
  gives the pages \<open>[C, A]\<close>.
\<close>

theorem extract_pages_selects_in_order:
  assumes "open_pages lib pdf_bytes = Inr pgs"
    and "\<forall>p \<in> set pages_1based. 1 \<le> p \<and> p \<le> int (length pgs)"
  shows "extract_pages_from_pdf lib pdf_bytes pages_1based
           = Inr (PdfWriter_write lib
                   \<lparr>w_pages = map (\<lambda>p. pgs ! nat (p - 1)) pages_1based,
                    w_metadata = [(''/Title'', ''Extracted Pages''), (''/Producer'', ''pypdf'')]\<rparr>)"
  using extract_pages_run_in_range [OF assms]
  by (simp add: extract_pages_from_pdf_def extract_metadata_def)

theorem extract_pages_selects_in_order_witness:
  "open_pages toy_pypdf ''ABC'' = Inr ''ABC''
   \<and> list_all (\<lambda>p. 1 \<le> p \<and> p \<le> int (length ''ABC'')) [3, 1]
   \<and> extract_pages_from_pdf toy_pypdf ''ABC'' [3, 1] = Inr ''CA''"
proof -
  have h: "\<forall>p \<in> set [3, 1]. 1 \<le> p \<and> p \<le> int (length ''ABC'')"
    by simp
  have "extract_pages_from_pdf toy_pypdf ''ABC'' [3, 1] = Inr ''CA''"
    using extract_pages_selects_in_order [OF toy_open_pages h]
    by (simp add: toy_pypdf_def)
  with toy_open_pages show ?thesis by simp
qed

text \<open>
  Claim C2 says that the error names the offending page number and the valid range. On the
  code it does not for a page number of more than 4300 digits: formatting the message raises
  the \<open>ValueError\<close> of the digit limit. The source has the pages \<open>[A, B, C]\<close>.
\<close>

theorem out_of_range_message_counterexample:
  "extract_pages_run toy_pypdf ''ABC'' [10 ^ 4300]
     = (Inl (ValueError Exceeds_digit_limit_str), None)"
  by (rule extract_pages_run_huge_page) (rule order_refl)

text \<open>
  Claim C2, amended. For every source whose page list can be read, \<open>extract_pages_from_pdf\<close>
  raises \<open>ValueError\<close> if and only if some entry \<open>p\<close> of the page list has \<open>p < 1\<close> or \<open>p\<close>
  above the number of pages. When the first such entry and the number of pages have at most
  4300 digits, the error names that entry and the range from 1 to the number of pages;
  otherwise it is the \<open>ValueError\<close> of the digit limit. In both cases it is raised before the
  writer exists: no page has been added and nothing is returned.
\<close>

theorem extract_pages_out_of_range:
  assumes "open_pages lib pdf_bytes = Inr pgs"
  shows "((\<exists>m. extract_pages_from_pdf lib pdf_bytes pages_1based = Inl (ValueError m))
            \<longleftrightarrow> (\<exists>p \<in> set pages_1based. p < 1 \<or> p > int (length pgs)))
         \<and> (\<forall>p. find (\<lambda>p. p < 1 \<or> p > int (length pgs)) pages_1based = Some p \<longrightarrow>
               extract_pages_run lib pdf_bytes pages_1based
                 = (Inl (ValueError
                      (if num_digits p \<le> max_str_digits
                            \<and> num_digits (int (length pgs)) \<le> max_str_digits
                       then Message
                              (''Page '' @ int_digits p @ '' is out of range (1..''
                                 @ int_digits (int (length pgs)) @ '').'')
                       else Exceeds_digit_limit_str)),
                    None))"
proof (cases "find (\<lambda>p. p < 1 \<or> int (length pgs) < p) pages_1based")
  case None
  then have ok: "\<forall>p \<in> set pages_1based. 1 \<le> p \<and> p \<le> int (length pgs)"
    by (simp add: find_None_in_range)
  have "\<exists>out. extract_pages_from_pdf lib pdf_bytes pages_1based = Inr out"
    using extract_pages_run_in_range [OF assms ok] by (simp add: extract_pages_from_pdf_def)
  with None ok show ?thesis by auto
next
  case (Some q)
  then have bad: "\<exists>p \<in> set pages_1based. p < 1 \<or> p > int (length pgs)"
    by (auto simp: find_Some_iff)
  have "extract_pages_run lib pdf_bytes pages_1based
          = (Inl (out_of_range_error q (int (length pgs))), None)"
    using assms Some by (rule extract_pages_run_out_of_range)
  with Some bad show ?thesis
    by (simp add: extract_pages_from_pdf_def out_of_range_error_cases)
qed

theorem extract_pages_out_of_range_witness:
  "open_pages toy_pypdf ''ABC'' = Inr ''ABC''
   \<and> find (\<lambda>p. p < 1 \<or> p > int (length ''ABC'')) [3, 0, 1, 7] = Some 0
   \<and> extract_pages_run toy_pypdf ''ABC'' [3, 0, 1, 7]
        = (Inl (ValueError (Message ''Page 0 is out of range (1..3).'')), None)
   \<and> (\<exists>p \<in> set [3, 0, 1, 7]. p < 1 \<or> p > int (length ''ABC''))
   \<and> (\<exists>m. extract_pages_from_pdf toy_pypdf ''ABC'' [3, 0, 1, 7] = Inl (ValueError m))"
proof -
  have f: "find (\<lambda>p. p < 1 \<or> p > int (length ''ABC'')) [3, 0, 1, 7] = Some 0"
    by simp
  have b: "\<exists>p \<in> set [3, 0, 1, 7]. p < 1 \<or> p > int (length ''ABC'')"
    by simp
  have m: "(if num_digits 0 \<le> max_str_digits
               \<and> num_digits (int (length ''ABC'')) \<le> max_str_digits
            then Message
                   (''Page '' @ int_digits 0 @ '' is out of range (1..''
                      @ int_digits (int (length ''ABC'')) @ '').'')
            else Exceeds_digit_limit_str)
             = Message ''Page 0 is out of range (1..3).''"
    by code_simp
  note inst = extract_pages_out_of_range [OF toy_open_pages, of "[3, 0, 1, 7]"]
  from inst f have "extract_pages_run toy_pypdf ''ABC'' [3, 0, 1, 7]
      = (Inl (ValueError
           (if num_digits 0 \<le> max_str_digits
               \<and> num_digits (int (length ''ABC'')) \<le> max_str_digits
            then Message
                   (''Page '' @ int_digits 0 @ '' is out of range (1..''
                      @ int_digits (int (length ''ABC'')) @ '').'')
            else Exceeds_digit_limit_str)), None)"
    by blast
  then have r: "extract_pages_run toy_pypdf ''ABC'' [3, 0, 1, 7]
      = (Inl (ValueError (Message ''Page 0 is out of range (1..3).'')), None)"
    by (simp only: m)
  from inst b have "\<exists>m. extract_pages_from_pdf toy_pypdf ''ABC'' [3, 0, 1, 7] = Inl (ValueError m)"
    by blast
  with toy_open_pages f r b show ?thesis by blast
qed

lemma extract_pages_run_encrypted:
  assumes "PdfReader_init lib pdf_bytes = Inr reader" and "is_encrypted reader"
  shows "(\<forall>e. decrypt reader '''' = Inl e \<longrightarrow>
            extract_pages_run lib pdf_bytes ps
              = (Inl (RuntimeError
                   (''PDF is encrypted and cannot be opened without a password: '' @ e)),
                 None))
         \<and> (\<forall>c. decrypt reader '''' = Inr c \<longrightarrow>
               open_pages lib pdf_bytes = pages reader (Some ''''))"
  using assms
  by (simp add: extract_pages_run_def open_pages_def try_decrypt_def)

lemma extract_pages_run_decrypt_returns:
  assumes "PdfReader_init lib pdf_bytes = Inr reader" and "is_encrypted reader"
    and "decrypt reader '''' = Inr c"
  shows "extract_pages_run lib pdf_bytes ps =
           (case pages reader (Some '''') of
              Inl e \<Rightarrow> (Inl e, None)
            | Inr pgs \<Rightarrow>
                (case validate_loop ps (int (length pgs)) of
                   Inl e \<Rightarrow> (Inl e, None)
                 | Inr _ \<Rightarrow>
                     (case add_loop pgs ps PdfWriter_new of
                        (Some e, writer) \<Rightarrow> (Inl e, Some writer)
                      | (None, writer) \<Rightarrow>
                          (Inr (PdfWriter_write lib (add_metadata writer extract_metadata)),
                           Some (add_metadata writer extract_metadata)))))"
  using assms
  by (auto simp: extract_pages_run_def try_decrypt_def Let_def
           split: sum.splits prod.splits option.splits)

text \<open>
  Claim C6. For an encrypted source the code calls \<open>decrypt\<close> with the empty password and
  raises its \<open>RuntimeError\<close> when that call raises. What the call returns is not looked at:
  for a document that needs a real password, whose \<open>decrypt\<close> returns 0 (not decrypted)
  and raises nothing, the code raises no \<open>RuntimeError\<close> and goes on to read the pages.
  On such a document the error that comes out is the one the library raises when the
  pages are read, not the error the code has for an encrypted document.
\<close>

theorem extract_pages_failed_unlock_not_reported:
  "PdfReader_init toy_pypdf ''!AB'' = Inr (toy_reader ''!AB'')
   \<and> is_encrypted (toy_reader ''!AB'')
   \<and> decrypt (toy_reader ''!AB'') '''' = Inr 0
   \<and> extract_pages_run toy_pypdf ''!AB'' [1]
        = (Inl (PdfError ''File has not been decrypted''), None)"
  by (simp add: extract_pages_run_def try_decrypt_def toy_pypdf_def toy_reader_def)

text \<open>
  Claim C10. For every source that parses, is not encrypted and whose page list can be read,
  \<open>extract_pages_from_pdf\<close> with the empty page list raises nothing and returns the
  serialisation of a writer with no pages, carrying the two metadata entries.
\<close>

theorem extract_pages_empty_list:
  assumes "PdfReader_init lib pdf_bytes = Inr reader" and "\<not> is_encrypted reader"
    and "pages reader None = Inr pgs"
  shows "extract_pages_from_pdf lib pdf_bytes []
           = Inr (PdfWriter_write lib
                   \<lparr>w_pages = [],
                    w_metadata = [(''/Title'', ''Extracted Pages''), (''/Producer'', ''pypdf'')]\<rparr>)"
proof -
  from assms have "open_pages lib pdf_bytes = Inr pgs"
    by (simp add: open_pages_def try_decrypt_def)
  from extract_pages_run_in_range [OF this, of "[]"] show ?thesis
    by (simp add: extract_pages_from_pdf_def extract_metadata_def)
qed

theorem extract_pages_empty_list_witness:
  "PdfReader_init toy_pypdf ''ABC'' = Inr (toy_reader ''ABC'')
   \<and> \<not> is_encrypted (toy_reader ''ABC'')
   \<and> pages (toy_reader ''ABC'') None = Inr ''ABC''
   \<and> extract_pages_from_pdf toy_pypdf ''ABC'' [] = Inr ''''"
proof -
  have h1: "PdfReader_init toy_pypdf ''ABC'' = Inr (toy_reader ''ABC'')"
    by (simp add: toy_pypdf_def)
  have h2: "\<not> is_encrypted (toy_reader ''ABC'')"
    by (simp add: toy_reader_def)
  have h3: "pages (toy_reader ''ABC'') None = Inr ''ABC''"
    by (simp add: toy_reader_def)
  have "extract_pages_from_pdf toy_pypdf ''ABC'' [] = Inr ''''"
    using extract_pages_empty_list [OF h1 h2 h3] by (simp add: toy_pypdf_def)
  with h1 h2 h3 show ?thesis by blast
qed

end
